theory Spec2Isabelle
  imports Main "HOL-Library.Word"
begin

section \<open>The zapd daemon: transfer callback and supervisor loop\<close>

text \<open>
  The development embeds \<^verbatim>\<open>src/zapd/app.py\<close>: the callback \<^verbatim>\<open>on_transfer_utx\<close>
  that the node feed invokes for every transfer, the handler \<^verbatim>\<open>sigint_handler\<close>, and the
  supervisor loop of the \<^verbatim>\<open>__main__\<close> block. Everything the code does to the outside
  world (logger calls, the calls into \<^verbatim>\<open>utils\<close> that sign, deliver or send mail, the
  start and stop of the two workers, the sleep) is recorded as an \<open>action\<close>, in program
  order, so that a run of the code is the list of its actions.
\<close>

subsection \<open>Values\<close>

type_synonym byte = "8 word"
type_synonym bytes = "byte list"

text \<open>The levels of Python's \<^verbatim>\<open>logging\<close> that the daemon uses, with their numbers.\<close>

datatype level = DEBUG | INFO | WARNING | ERROR

fun levelno :: "level \<Rightarrow> nat" where
  "levelno DEBUG = 10"
| "levelno INFO = 20"
| "levelno WARNING = 30"
| "levelno ERROR = 40"

text \<open>
  A formatted message keeps the structure of the f-string that builds it: literal pieces
  and the interpolated values, in order.
\<close>

datatype frag = Lit string | Str string | Num int | Raw bytes

type_synonym fstring = "frag list"

text \<open>The two workers that the main block creates: \<^verbatim>\<open>rpc.ZapRPC()\<close> and \<^verbatim>\<open>utx.WavesUTX(...)\<close>.\<close>

datatype task = ZapRPC | WavesUTX

datatype action =
    Log level fstring
  | SignNotification string int string string int "string option"
  | CallWebhook bytes bytes
  | EmailDeath fstring
  | EmailAlive fstring
  | Sleep nat
  | Start task
  | Stop task

text \<open>A Python exception that leaves a helper, as a value.\<close>

datatype error = Raised string

subsection \<open>Configuration and the helpers that are not in the sources\<close>

text \<open>
  \<^verbatim>\<open>cfg = config.read_cfg()\<close>: the callback reads \<^verbatim>\<open>cfg.address\<close>, the module reads
  \<^verbatim>\<open>cfg.testnet\<close>.
\<close>

record config =
  address :: string
  testnet :: bool

text \<open>
  The callback calls \<^verbatim>\<open>base58.b58encode\<close> (a library) and three functions of the module
  \<^verbatim>\<open>utils\<close>, whose file is not among the sources. They are parameters of the model. Each
  \<^verbatim>\<open>utils\<close> function either returns (\<open>Inr\<close>) or raises (\<open>Inl\<close>); the callback has no
  \<^verbatim>\<open>try\<close>, so an exception of a helper leaves the callback. The encoded recipient and
  \<^verbatim>\<open>cfg.address\<close> are values of one type here, so that \<^verbatim>\<open>==\<close> compares their contents.
\<close>

record helpers =
  b58encode :: "bytes \<Rightarrow> string"
  address_from_public_key :: "bytes \<Rightarrow> error + string"
  extract_invoice_id :: "bytes \<Rightarrow> error + string option"
  create_signed_payment_notification ::
    "string \<Rightarrow> int \<Rightarrow> string \<Rightarrow> string \<Rightarrow> int \<Rightarrow> string option \<Rightarrow> error + bytes \<times> bytes"

subsection \<open>The transfer callback\<close>

text \<open>
  \<^verbatim>\<open>
  def on_transfer_utx(wutx, txid, sig, pubkey, asset_id, timestamp, amount, fee, recipient, attachment):
      recipient = base58.b58encode(recipient)
      logger.info(f"!transfer!: txid {txid}, recipient {recipient}, amount {amount}, attachment {attachment}")
      if recipient == cfg.address:
          # create message
          from_ = utils.address_from_public_key(pubkey)
          invoice_id = utils.extract_invoice_id(logger, attachment)
          msg, sig = utils.create_signed_payment_notification(txid, timestamp, recipient, from_, amount, invoice_id)
          utils.call_webhook(logger, msg, sig)
  \<close>
  The first argument (the feed object) is not used by the body and is left out. The result
  is the list of actions of the call and the exception that left it, if any. The
  \<open>SignNotification\<close> action records the call of the signer with its arguments; the
  tuple assignment rebinds the parameter \<open>sig\<close>, as the inner pattern does here. The
  local \<^verbatim>\<open>from_\<close> is written \<open>from_addr\<close>. What the helpers log through the logger that
  they are handed is their own and not part of the callback's actions.
\<close>

definition transfer_line :: "string \<Rightarrow> string \<Rightarrow> int \<Rightarrow> bytes \<Rightarrow> fstring" where
  "transfer_line txid recipient amount attachment =
     [Lit ''!transfer!: txid '', Str txid, Lit '', recipient '', Str recipient,
      Lit '', amount '', Num amount, Lit '', attachment '', Raw attachment]"

definition on_transfer_utx ::
  "helpers \<Rightarrow> config \<Rightarrow> string \<Rightarrow> bytes \<Rightarrow> bytes \<Rightarrow> string option \<Rightarrow> int \<Rightarrow> int \<Rightarrow> int \<Rightarrow> bytes \<Rightarrow> bytes
     \<Rightarrow> action list \<times> error option" where
  "on_transfer_utx H cfg txid sig pubkey asset_id timestamp amount fee recipient attachment =
     (let recipient = b58encode H recipient;
          logged = [Log INFO (transfer_line txid recipient amount attachment)]
      in if recipient = address cfg then
           (case address_from_public_key H pubkey of
              Inl e \<Rightarrow> (logged, Some e)
            | Inr from_addr \<Rightarrow>
               (case extract_invoice_id H attachment of
                  Inl e \<Rightarrow> (logged, Some e)
                | Inr invoice_id \<Rightarrow>
                   (case create_signed_payment_notification H txid timestamp recipient from_addr amount invoice_id of
                      Inl e \<Rightarrow>
                        (logged @ [SignNotification txid timestamp recipient from_addr amount invoice_id], Some e)
                    | Inr (msg, sig) \<Rightarrow>
                        (logged @ [SignNotification txid timestamp recipient from_addr amount invoice_id,
                                   CallWebhook msg sig], None))))
         else (logged, None))"

text \<open>The actions that sign a notification or deliver one.\<close>

fun is_sign :: "action \<Rightarrow> bool" where
  "is_sign (SignNotification _ _ _ _ _ _) = True"
| "is_sign _ = False"

fun is_webhook :: "action \<Rightarrow> bool" where
  "is_webhook (CallWebhook _ _) = True"
| "is_webhook _ = False"

text \<open>
  The log records of a run that are above the finest level. Python's \<^verbatim>\<open>logging\<close> has no
  level called trace; its finest level is \<^verbatim>\<open>DEBUG\<close>, which is also the level that
  \<^verbatim>\<open>setup_logging(logging.DEBUG)\<close> configures, so every \<open>Log\<close> action is emitted.
\<close>

fun above_trace :: "action \<Rightarrow> bool" where
  "above_trace (Log l _) = (levelno DEBUG < levelno l)"
| "above_trace _ = False"

subsection \<open>The signal handler\<close>

text \<open>
  The state of the main block: the module-level flag \<^verbatim>\<open>keep_running\<close> and the local
  \<^verbatim>\<open>sent_start_email\<close>.
  \<^verbatim>\<open>
  def sigint_handler(signum, frame):
      global keep_running
      logger.warning("SIGINT caught, attempting to exit gracefully")
      keep_running = False
  \<close>
\<close>

record state =
  keep_running :: bool
  sent_start_email :: bool

definition sigint_handler :: "state \<Rightarrow> action list \<times> state" where
  "sigint_handler st =
     ([Log WARNING [Lit ''SIGINT caught, attempting to exit gracefully'']],
      st\<lparr>keep_running := False\<rparr>)"

text \<open>A point of the run at which the signal may or may not arrive.\<close>

definition deliver :: "bool \<Rightarrow> state \<Rightarrow> action list \<times> state" where
  "deliver arrived st = (if arrived then sigint_handler st else ([], st))"

subsection \<open>The supervisor loop\<close>

text \<open>
  \<^verbatim>\<open>
      sent_start_email = False
      while keep_running:
          gevent.sleep(1)
          # check if any essential greenlets are dead
          if len(group) < 3:
              msg = "one of our greenlets is dead X("
              logger.error(msg)
              utils.email_death(logger, msg)
              break
          # send start email when all essential greenlets are started
          if not sent_start_email:
              send_start_email = True
              for g in group:
                  if not g.started:
                      send_start_email = False
              if send_start_email:
                  sent_start_email = True
                  msg = "our greenlets have started :)"
                  logger.info(msg)
                  utils.email_alive(logger, msg)
  \<close>
  What one iteration reads from its environment is a \<open>poll\<close>: whether the interrupt
  signal was handled before the loop condition is tested, whether it was handled while the
  loop slept, and the group as the body finds it after the sleep, one entry per greenlet
  of the group, holding that greenlet's \<^verbatim>\<open>started\<close>. A greenlet that has ended is no
  longer in the group, so \<open>length (group p)\<close> is \<^verbatim>\<open>len(group)\<close>.
\<close>

record poll =
  sigint_at_test :: bool
  sigint_asleep :: bool
  group :: "bool list"

definition dead_msg :: fstring where
  "dead_msg = [Lit ''one of our greenlets is dead X('']"

definition started_msg :: fstring where
  "started_msg = [Lit ''our greenlets have started :)'']"

text \<open>The \<^verbatim>\<open>for g in group\<close> loop, from \<^verbatim>\<open>send_start_email = True\<close>.\<close>

definition send_start_email :: "bool list \<Rightarrow> bool" where
  "send_start_email grp = fold (\<lambda>started s. if \<not> started then False else s) grp True"

text \<open>
  The body of the loop after the sleep: its actions, and the state with which the loop goes
  on, or \<open>None\<close> after \<^verbatim>\<open>break\<close>.
\<close>

definition body :: "state \<Rightarrow> bool list \<Rightarrow> action list \<times> state option" where
  "body st grp =
     (if length grp < 3 then ([Log ERROR dead_msg, EmailDeath dead_msg], None)
      else if \<not> sent_start_email st then
        (if send_start_email grp
         then ([Log INFO started_msg, EmailAlive started_msg], Some (st\<lparr>sent_start_email := True\<rparr>))
         else ([], Some st))
      else ([], Some st))"

text \<open>
  How a run of the loop over a finite list of polls ends: the condition was found false
  (\<open>Stopped\<close>), the body left by \<^verbatim>\<open>break\<close> (\<open>Broke\<close>), or the polls ran out with the
  loop still going, in the given state (\<open>Polling\<close>). The loop itself need not end; a run
  that never leaves the loop is \<open>Polling\<close> on every finite prefix of its polls. Once the
  flag is cleared the next test of the condition ends the loop whatever the environment
  does, so a run whose polls ran out with the flag cleared is \<open>Stopped\<close>.
\<close>

datatype ending = Stopped | Broke | Polling state

fun main_loop :: "state \<Rightarrow> poll list \<Rightarrow> action list \<times> ending" where
  "main_loop st [] = (if \<not> keep_running st then ([], Stopped) else ([], Polling st))"
| "main_loop st (p # ps) =
     (case deliver (sigint_at_test p) st of (a1, st1) \<Rightarrow>
        if \<not> keep_running st1 then (a1, Stopped)
        else
          (case deliver (sigint_asleep p) st1 of (a2, st2) \<Rightarrow>
             (case body st2 (group p) of
                (a3, None) \<Rightarrow> (a1 @ Sleep 1 # a2 @ a3, Broke)
              | (a3, Some st3) \<Rightarrow>
                  (case main_loop st3 ps of (rest, e) \<Rightarrow> (a1 @ Sleep 1 # a2 @ a3 @ rest, e)))))"

subsection \<open>The main block\<close>

text \<open>
  \<^verbatim>\<open>
  keep_running = True
  if __name__ == "__main__":
      setup_logging(logging.DEBUG)
      signal.signal(signal.SIGINT, sigint_handler)
      logger.info("starting greenlets")
      group = gevent.pool.Group()
      zaprpc = rpc.ZapRPC()
      zaprpc.start(group)
      wutx = utx.WavesUTX(None, on_transfer_utx)
      wutx.start(group)
      logger.info("main loop")
      sent_start_email = False
      while keep_running: ...
      logger.info("stopping greenlets")
      wutx.stop()
      zaprpc.stop()
  \<close>
  The statements after the loop run when the loop has ended, whichever way.
\<close>

definition startup :: "action list" where
  "startup = [Log INFO [Lit ''starting greenlets''], Start ZapRPC, Start WavesUTX,
              Log INFO [Lit ''main loop'']]"

definition shutdown :: "action list" where
  "shutdown = [Log INFO [Lit ''stopping greenlets''], Stop WavesUTX, Stop ZapRPC]"

definition initial :: state where
  "initial = \<lparr>keep_running = True, sent_start_email = False\<rparr>"

definition main :: "poll list \<Rightarrow> action list \<times> ending" where
  "main ps =
     (case main_loop initial ps of
        (tr, Polling st) \<Rightarrow> (startup @ tr, Polling st)
      | (tr, e) \<Rightarrow> (startup @ tr @ shutdown, e))"

fun is_email_alive :: "action \<Rightarrow> bool" where
  "is_email_alive (EmailAlive _) = True"
| "is_email_alive _ = False"

fun is_email_death :: "action \<Rightarrow> bool" where
  "is_email_death (EmailDeath _) = True"
| "is_email_death _ = False"

fun is_sleep :: "action \<Rightarrow> bool" where
  "is_sleep (Sleep _) = True"
| "is_sleep _ = False"

text \<open>
  A poll at which the loop is left alone and finds every worker in place: no signal, at
  least three greenlets in the group, each of them started.
\<close>

definition all_running :: "poll \<Rightarrow> bool" where
  "all_running p = (\<not> sigint_at_test p \<and> \<not> sigint_asleep p \<and> 3 \<le> length (group p) \<and> list_all (\<lambda>started. started) (group p))"

subsection \<open>The attachment codec\<close>

text \<open>
  Modelled from the spec: \<^verbatim>\<open>utils.extract_invoice_id\<close>, which the callback calls to decode
  the attachment, is not among the sources. The spec gives its contract: \<^verbatim>\<open>decode(attachment:
  bytes) -> InvoiceId | absent\<close>; malformed, empty or unrelated content yields absent rather
  than an error, and only a well-formed encoding yields a present invoice id. The format is
  application-specific and opaque, so it is a parameter: \<open>read_format\<close> reads a well-formed
  encoding and raises on anything else. \<open>Inr None\<close> is the absent value; an exception
  that reached the caller would be \<open>Inl\<close>.
\<close>

definition decode :: "(bytes \<Rightarrow> error + string) \<Rightarrow> bytes \<Rightarrow> error + string option" where
  "decode read_format attachment =
     (case read_format attachment of
        Inl _ \<Rightarrow> Inr None
      | Inr invoice_id \<Rightarrow> Inr (Some invoice_id))"

text \<open>
  Modelled from the spec: the format that the spec names as an example, a tagged
  length-prefixed field: one tag byte, one length byte, and a payload of exactly that
  length, read as characters.
\<close>

fun tagged_field :: "byte \<Rightarrow> bytes \<Rightarrow> error + string" where
  "tagged_field tag [] = Inl (Raised ''empty attachment'')"
| "tagged_field tag [t] = Inl (Raised ''no length'')"
| "tagged_field tag (t # n # payload) =
     (if t \<noteq> tag then Inl (Raised ''other tag'')
      else if unat n \<noteq> length payload then Inl (Raised ''wrong length'')
      else Inr (map (\<lambda>b. char_of (unat b)) payload))"

subsection \<open>The notification signer\<close>

text \<open>
  Modelled from the spec: \<^verbatim>\<open>utils.create_signed_payment_notification\<close> is not among the
  sources. By the spec the signer builds the canonical message by encoding, in a fixed field
  order, the transaction id, the timestamp, the recipient, the sender address, the amount
  and the invoice id (an empty sentinel if absent), and signs it with the daemon's private
  key using the chain's signature scheme; it returns the message and the signature. The
  encoding of the fields, the signature scheme and the key are parameters. The argument
  \<open>entropy\<close> stands for whatever the random source of the process would deliver during the
  call; by the spec the signature includes no nonce or randomness beyond the event, so the
  model does not read it.
\<close>

record signer =
  serialize :: "frag list \<Rightarrow> bytes"
  sign_message :: "bytes \<Rightarrow> bytes \<Rightarrow> bytes"
  private_key :: bytes

definition canonical_message ::
  "signer \<Rightarrow> string \<Rightarrow> int \<Rightarrow> string \<Rightarrow> string \<Rightarrow> int \<Rightarrow> string option \<Rightarrow> bytes" where
  "canonical_message S txid timestamp recipient from_addr amount invoice_id =
     serialize S [Str txid, Num timestamp, Str recipient, Str from_addr, Num amount,
                  Str (case invoice_id of None \<Rightarrow> [] | Some i \<Rightarrow> i)]"

definition sign_notification ::
  "signer \<Rightarrow> bytes \<Rightarrow> string \<Rightarrow> int \<Rightarrow> string \<Rightarrow> string \<Rightarrow> int \<Rightarrow> string option \<Rightarrow> error + bytes \<times> bytes" where
  "sign_notification S entropy txid timestamp recipient from_addr amount invoice_id =
     (let msg = canonical_message S txid timestamp recipient from_addr amount invoice_id
      in Inr (msg, sign_message S (private_key S) msg))"

subsection \<open>Concrete instances\<close>

text \<open>
  Small instances of the parameters, on which the definitions evaluate: a signer, the
  helpers (with the codec and the signer above), a configuration, and five polls.
\<close>

definition demo_signer :: signer where
  "demo_signer = \<lparr>serialize = (\<lambda>fs. [of_nat (length fs)]), sign_message = (\<lambda>k m. k @ m), private_key = [7]\<rparr>"

definition demo_helpers :: helpers where
  "demo_helpers =
     \<lparr>b58encode = (\<lambda>bs. if bs = [1, 2, 3] then ''3MerchantAddress'' else ''3OtherAddress''),
      address_from_public_key = (\<lambda>pk. Inr ''3SenderAddress''),
      extract_invoice_id = decode (tagged_field 73),
      create_signed_payment_notification = sign_notification demo_signer []\<rparr>"

definition demo_cfg :: config where
  "demo_cfg = \<lparr>address = ''3MerchantAddress'', testnet = True\<rparr>"

definition poll_started :: poll where
  "poll_started = \<lparr>sigint_at_test = False, sigint_asleep = False, group = [True, True, True]\<rparr>"

definition poll_starting :: poll where
  "poll_starting = \<lparr>sigint_at_test = False, sigint_asleep = False, group = [True, False, True]\<rparr>"

definition poll_one_dead :: poll where
  "poll_one_dead = \<lparr>sigint_at_test = False, sigint_asleep = False, group = [True, True]\<rparr>"

definition poll_interrupted :: poll where
  "poll_interrupted = \<lparr>sigint_at_test = False, sigint_asleep = True, group = [True, True, True]\<rparr>"

definition poll_interrupted_dead :: poll where
  "poll_interrupted_dead = \<lparr>sigint_at_test = False, sigint_asleep = True, group = [True, True]\<rparr>"

section \<open>Properties\<close>

subsection \<open>The start check and the signal\<close>

lemma send_start_email_fold:
  "fold (\<lambda>started s. if \<not> started then False else s) grp b = (b \<and> (\<forall>g\<in>set grp. g))"
  by (induction grp arbitrary: b) auto

lemma send_start_email_all: "send_start_email grp = (\<forall>g\<in>set grp. g)"
  by (simp add: send_start_email_def send_start_email_fold)

lemma deliver_cases:
  "deliver b st = (if b then ([Log WARNING [Lit ''SIGINT caught, attempting to exit gracefully'']], st\<lparr>keep_running := False\<rparr>) else ([], st))"
  by (simp add: deliver_def sigint_handler_def)

lemma deliver_sent: "deliver b st = (a, st') \<Longrightarrow> sent_start_email st' = sent_start_email st"
  by (auto simp: deliver_cases split: if_splits)

lemma deliver_quiet: "deliver b st = (a, st') \<Longrightarrow> filter is_email_alive a = [] \<and> filter is_email_death a = [] \<and> filter is_sleep a = []"
  by (auto simp: deliver_cases split: if_splits)

lemma deliver_flag: "deliver b st = (a, st') \<Longrightarrow> keep_running st' = (keep_running st \<and> \<not> b)"
  by (auto simp: deliver_cases split: if_splits)

subsection \<open>The body and the loop\<close>

lemma body_break: "length grp < 3 \<Longrightarrow> body st grp = ([Log ERROR dead_msg, EmailDeath dead_msg], None)"
  by (simp add: body_def)

lemma body_Some:
  "body st grp = (a, Some st') \<Longrightarrow>
     keep_running st' = keep_running st \<and> filter is_email_death a = [] \<and> filter is_sleep a = [] \<and>
     (sent_start_email st \<longrightarrow> sent_start_email st' \<and> a = []) \<and>
     (\<not> sent_start_email st' \<longrightarrow> a = []) \<and>
     length (filter is_email_alive a) \<le> 1"
  by (auto simp: body_def split: if_splits)

lemma body_None:
  "body st grp = (a, None) \<Longrightarrow> a = [Log ERROR dead_msg, EmailDeath dead_msg] \<and> length grp < 3"
  by (auto simp: body_def split: if_splits)

lemma main_loop_append:
  "main_loop st pre = (tr, Polling st') \<Longrightarrow>
   main_loop st (pre @ post) = (case main_loop st' post of (tr2, e) \<Rightarrow> (tr @ tr2, e))"
proof (induction pre arbitrary: st tr)
  case Nil
  then show ?case by (auto split: if_splits prod.splits)
next
  case (Cons p pre)
  then show ?case
    by (auto split: prod.splits option.splits if_splits)
qed

lemma main_loop_broke:
  "main_loop st pre = (tr, Broke) \<Longrightarrow> main_loop st (pre @ post) = (tr, Broke)"
proof (induction pre arbitrary: st tr)
  case Nil
  then show ?case by (auto split: if_splits)
next
  case (Cons p pre)
  then show ?case
    by (auto split: prod.splits option.splits if_splits)
qed

lemma polling_flag: "main_loop st ps = (tr, Polling st') \<Longrightarrow> keep_running st'"
proof (induction ps arbitrary: st tr)
  case Nil then show ?case by (auto split: if_splits)
next
  case (Cons p ps)
  then show ?case
    by (auto split: prod.splits option.splits if_splits)
qed


lemma stopped_run:
  "\<not> keep_running st \<Longrightarrow> snd (main_loop st ps) = Stopped \<and> filter is_sleep (fst (main_loop st ps)) = []
     \<and> filter is_email_alive (fst (main_loop st ps)) = [] \<and> filter is_email_death (fst (main_loop st ps)) = []"
  by (cases ps) (auto simp: deliver_cases split: prod.splits)

lemma polling_no_death:
  "main_loop st ps = (tr, Polling st') \<Longrightarrow> filter is_email_death tr = []"
proof (induction ps arbitrary: st tr)
  case Nil then show ?case by (auto split: if_splits)
next
  case (Cons p ps)
  then show ?case
    by (auto split: prod.splits option.splits if_splits dest!: body_Some deliver_quiet)
qed

lemma polling_sent_mono:
  "main_loop st ps = (tr, Polling st') \<Longrightarrow> sent_start_email st \<Longrightarrow> sent_start_email st'"
proof (induction ps arbitrary: st tr)
  case Nil then show ?case by (auto split: if_splits)
next
  case (Cons p ps)
  then show ?case
    by (fastforce split: prod.splits option.splits if_splits dest!: body_Some dest: deliver_sent)
qed

lemma polling_unsent:
  "main_loop st ps = (tr, Polling st') \<Longrightarrow> \<not> sent_start_email st' \<Longrightarrow> filter is_email_alive tr = []"
proof (induction ps arbitrary: st tr)
  case Nil then show ?case by (auto split: if_splits)
next
  case (Cons p ps)
  obtain a1 st1 where d1: "deliver (sigint_at_test p) st = (a1, st1)" by (cases "deliver (sigint_at_test p) st")
  obtain a2 st2 where d2: "deliver (sigint_asleep p) st1 = (a2, st2)" by (cases "deliver (sigint_asleep p) st1")
  obtain a3 r where b: "body st2 (group p) = (a3, r)" by (cases "body st2 (group p)")
  from Cons.prems(1) d1 d2 b obtain st3 rest where
    r: "r = Some st3" and k: "keep_running st1" and ml: "main_loop st3 ps = (rest, Polling st')"
    and tr: "tr = a1 @ Sleep 1 # a2 @ a3 @ rest"
    by (auto split: if_splits option.splits prod.splits)
  have "\<not> sent_start_email st3" using polling_sent_mono[OF ml] Cons.prems(2) by blast
  then have a3: "a3 = []" using body_Some[OF b[unfolded r]] by blast
  have rest: "filter is_email_alive rest = []" using Cons.IH[OF ml Cons.prems(2)] .
  show ?case using tr a3 rest deliver_quiet[OF d1] deliver_quiet[OF d2] by simp
qed

lemma alive_at_most_once:
  "length (filter is_email_alive (fst (main_loop st ps))) \<le> (if sent_start_email st then 0 else 1)"
proof (induction ps arbitrary: st)
  case Nil then show ?case by simp
next
  case (Cons p ps)
  obtain a1 st1 where d1: "deliver (sigint_at_test p) st = (a1, st1)" by (cases "deliver (sigint_at_test p) st")
  obtain a2 st2 where d2: "deliver (sigint_asleep p) st1 = (a2, st2)" by (cases "deliver (sigint_asleep p) st1")
  obtain a3 r where b: "body st2 (group p) = (a3, r)" by (cases "body st2 (group p)")
  have s2: "sent_start_email st2 = sent_start_email st"
    using deliver_sent[OF d1] deliver_sent[OF d2] by simp
  note q1 = deliver_quiet[OF d1] and q2 = deliver_quiet[OF d2]
  show ?case
  proof (cases "keep_running st1")
    case False
    then show ?thesis using d1 q1 by simp
  next
    case True
    show ?thesis
    proof (cases r)
      case None
      then show ?thesis using True d1 d2 b q1 q2 body_None[OF b[unfolded None]]
        by simp
    next
      case (Some st3)
      note bs = body_Some[OF b[unfolded Some]]
      obtain rest e where ml: "main_loop st3 ps = (rest, e)" by (cases "main_loop st3 ps")
      have ih: "length (filter is_email_alive rest) \<le> (if sent_start_email st3 then 0 else 1)"
        using Cons.IH[of st3] ml by simp
      have eq: "fst (main_loop st (p # ps)) = a1 @ Sleep 1 # a2 @ a3 @ rest"
        using True d1 d2 b Some ml by simp
      show ?thesis
      proof (cases "sent_start_email st3")
        case True
        then show ?thesis using eq ih bs q1 q2 s2 by (auto split: if_splits)
      next
        case False
        then have "a3 = []" using bs by blast
        then show ?thesis using eq ih False q1 q2 s2 bs by (auto split: if_splits)
      qed
    qed
  qed
qed

lemma initial_flags: "keep_running initial \<and> \<not> sent_start_email initial"
  by (simp add: initial_def)

lemma startup_quiet:
  "filter is_email_death startup = [] \<and> filter is_email_alive startup = []"
  by (simp add: startup_def)

lemma shutdown_quiet:
  "filter is_email_death shutdown = [] \<and> filter is_email_alive shutdown = []"
  by (simp add: shutdown_def)

lemma main_loop_death:
  assumes "keep_running st" and "\<not> sigint_at_test p" and "length (group p) < 3"
  shows "main_loop st (p # post)
         = (Sleep 1 # fst (deliver (sigint_asleep p) st) @ [Log ERROR dead_msg, EmailDeath dead_msg], Broke)"
  using assms by (simp add: deliver_cases body_break)

lemma main_after_polling:
  assumes "main_loop initial pre = (tr, Polling st)"
  shows "main (pre @ post) =
           (case main_loop st post of
              (tr2, Polling st') \<Rightarrow> (startup @ tr @ tr2, Polling st')
            | (tr2, e) \<Rightarrow> (startup @ tr @ tr2 @ shutdown, e))"
  by (simp add: main_def main_loop_append[OF assms] split: prod.splits ending.splits)

lemma body_all_started:
  "3 \<le> length grp \<Longrightarrow> list_all (\<lambda>started. started) grp \<Longrightarrow>
   body st grp = (if sent_start_email st then ([], Some st)
                  else ([Log INFO started_msg, EmailAlive started_msg], Some (st\<lparr>sent_start_email := True\<rparr>)))"
  by (auto simp: body_def send_start_email_all list_all_iff)

lemma all_running_step:
  assumes "keep_running st" and "all_running p"
  shows "main_loop st (p # ps) =
           (if sent_start_email st
            then (Sleep 1 # fst (main_loop st ps), snd (main_loop st ps))
            else (Sleep 1 # Log INFO started_msg # EmailAlive started_msg
                    # fst (main_loop (st\<lparr>sent_start_email := True\<rparr>) ps),
                  snd (main_loop (st\<lparr>sent_start_email := True\<rparr>) ps)))"
  using assms
  by (simp add: all_running_def deliver_cases body_all_started split: prod.splits)

lemma all_running_alive:
  "keep_running st \<Longrightarrow> list_all all_running ps \<Longrightarrow>
   length (filter is_email_alive (fst (main_loop st ps))) = (if sent_start_email st \<or> ps = [] then 0 else 1)"
proof (induction ps arbitrary: st)
  case Nil then show ?case by simp
next
  case (Cons p ps)
  from Cons.prems have p: "all_running p" and ps: "list_all all_running ps" by simp_all
  note step = all_running_step[OF Cons.prems(1) p, of ps]
  show ?case
  proof (cases "sent_start_email st")
    case True
    then show ?thesis using step Cons.IH[OF Cons.prems(1) ps] by simp
  next
    case False
    have "keep_running (st\<lparr>sent_start_email := True\<rparr>)" using Cons.prems(1) by simp
    from Cons.IH[OF this ps] False step show ?thesis by simp
  qed
qed

lemma main_loop_sigint:
  assumes "keep_running st" and "sigint_at_test p \<or> sigint_asleep p"
  shows "length (filter is_sleep (fst (main_loop st (p # post)))) \<le> 1
       \<and> (snd (main_loop st (p # post)) = Stopped \<or> snd (main_loop st (p # post)) = Broke)"
proof (cases "sigint_at_test p")
  case True
  then show ?thesis by (simp add: deliver_cases)
next
  case False
  with assms(2) have a: "sigint_asleep p" by simp
  obtain a3 r where b: "body (st\<lparr>keep_running := False\<rparr>) (group p) = (a3, r)"
    by (cases "body (st\<lparr>keep_running := False\<rparr>) (group p)")
  show ?thesis
  proof (cases r)
    case None
    then show ?thesis using False a assms(1) b body_None[OF b[unfolded None]]
      by (simp add: deliver_cases dead_msg_def)
  next
    case (Some st3)
    note bs = body_Some[OF b[unfolded Some]]
    then have "\<not> keep_running st3" by simp
    from stopped_run[OF this, of post] bs show ?thesis
      using False a assms(1) b Some
      by (auto simp: deliver_cases split: prod.splits)
  qed
qed

lemma body_continues:
  "3 \<le> length grp \<Longrightarrow> \<exists>a st'. body st grp = (a, Some st')"
  by (simp add: body_def)

lemma main_loop_sigint_ending:
  assumes "keep_running st" and "sigint_at_test p \<or> sigint_asleep p"
  shows "snd (main_loop st (p # post))
           = (if \<not> sigint_at_test p \<and> length (group p) < 3 then Broke else Stopped)
       \<and> filter is_email_death (fst (main_loop st (p # post)))
           = (if \<not> sigint_at_test p \<and> length (group p) < 3 then [EmailDeath dead_msg] else [])"
proof (cases "sigint_at_test p")
  case True
  then show ?thesis by (simp add: deliver_cases)
next
  case False
  with assms(2) have a: "sigint_asleep p" by simp
  show ?thesis
  proof (cases "length (group p) < 3")
    case True
    then show ?thesis using False a assms(1)
      by (simp add: deliver_cases body_break)
  next
    case short: False
    then obtain a3 st3 where b: "body (st\<lparr>keep_running := False\<rparr>) (group p) = (a3, Some st3)"
      using body_continues[of "group p" "st\<lparr>keep_running := False\<rparr>"] by auto
    note bs = body_Some[OF b]
    then have "\<not> keep_running st3" by simp
    from stopped_run[OF this, of post] bs show ?thesis
      using False a assms(1) b short
      by (auto simp: deliver_cases split: prod.splits)
  qed
qed

lemmas run_defs = initial_def deliver_def sigint_handler_def body_def send_start_email_def
  poll_started_def poll_starting_def poll_one_dead_def poll_interrupted_def

subsection \<open>The transfer callback\<close>

text \<open>
  Claim C1. For every transfer whose recipient, encoded to address form, is not the
  configured merchant address, the callback signs no payment notification and calls no
  webhook: its actions contain neither a call of the signer nor a webhook call.
\<close>

theorem non_merchant_no_notification:
  assumes "b58encode H recipient \<noteq> address cfg"
  shows "filter is_sign (fst (on_transfer_utx H cfg txid sig pubkey asset_id timestamp amount fee recipient attachment)) = []
       \<and> filter is_webhook (fst (on_transfer_utx H cfg txid sig pubkey asset_id timestamp amount fee recipient attachment)) = []"
  using assms by (simp add: on_transfer_utx_def Let_def)

theorem non_merchant_no_notification_witness:
  "b58encode demo_helpers [1, 2] \<noteq> address demo_cfg
   \<and> filter is_sign (fst (on_transfer_utx demo_helpers demo_cfg ''t1'' [9] [4] None 1000 500000 1 [1, 2] [])) = []
   \<and> filter is_webhook (fst (on_transfer_utx demo_helpers demo_cfg ''t1'' [9] [4] None 1000 500000 1 [1, 2] [])) = []"
proof -
  have h: "b58encode demo_helpers [1, 2] \<noteq> address demo_cfg"
    by (simp add: demo_helpers_def demo_cfg_def)
  show ?thesis
    using h non_merchant_no_notification [OF h, of "''t1''" "[9]" "[4]" None 1000 500000 1 "[]"]
    by simp
qed

text \<open>
  Claim C8 says that a transfer to another recipient produces no log output above trace
  level. The callback logs the transfer at level \<^verbatim>\<open>INFO\<close> before it compares the recipient,
  so the claim fails as stated: for the transfer below, which is not to the merchant, the
  log records above the finest level are the one \<^verbatim>\<open>INFO\<close> line.
\<close>

theorem non_merchant_logs_at_info:
  "b58encode demo_helpers [1, 2] \<noteq> address demo_cfg
   \<and> filter above_trace (fst (on_transfer_utx demo_helpers demo_cfg ''t1'' [9] [4] None 1000 500000 1 [1, 2] []))
       = [Log INFO (transfer_line ''t1'' ''3OtherAddress'' 500000 [])]"
  by (simp add: on_transfer_utx_def demo_helpers_def demo_cfg_def)

text \<open>
  Claim C8, amended. For every transfer whose recipient is not the configured merchant
  address, the callback writes exactly one log line, at level \<^verbatim>\<open>INFO\<close>, describing the
  transfer, and does nothing else: that line is the whole of its actions, and no exception
  leaves it.
\<close>

theorem non_merchant_only_logs:
  assumes "b58encode H recipient \<noteq> address cfg"
  shows "on_transfer_utx H cfg txid sig pubkey asset_id timestamp amount fee recipient attachment
         = ([Log INFO (transfer_line txid (b58encode H recipient) amount attachment)], None)"
  using assms by (simp add: on_transfer_utx_def Let_def)

theorem non_merchant_only_logs_witness:
  "b58encode demo_helpers [1, 2] \<noteq> address demo_cfg
   \<and> on_transfer_utx demo_helpers demo_cfg ''t1'' [9] [4] None 1000 500000 1 [1, 2] []
       = ([Log INFO (transfer_line ''t1'' ''3OtherAddress'' 500000 [])], None)"
proof -
  have h: "b58encode demo_helpers [1, 2] \<noteq> address demo_cfg"
    by (simp add: demo_helpers_def demo_cfg_def)
  have e: "b58encode demo_helpers [1, 2] = ''3OtherAddress''"
    by (simp add: demo_helpers_def)
  show ?thesis
    using h non_merchant_only_logs [OF h, of "''t1''" "[9]" "[4]" None 1000 500000 1 "[]"]
    by (simp add: e)
qed

text \<open>
  Claim C7. For every transfer to the merchant whose attachment does not decode (the
  codec returns the absent value), the notification is still built and delivered: the
  signer is called with an absent invoice id, and the webhook is called exactly once, with
  the message and signature that the signer returned. The address helper and the signer
  are taken to return.
\<close>

theorem undecodable_attachment_still_notifies:
  assumes "b58encode H recipient = address cfg"
    and "address_from_public_key H pubkey = Inr from_addr"
    and "extract_invoice_id H attachment = Inr None"
    and "create_signed_payment_notification H txid timestamp (address cfg) from_addr amount None = Inr (msg, nsig)"
  shows "on_transfer_utx H cfg txid sig pubkey asset_id timestamp amount fee recipient attachment
         = ([Log INFO (transfer_line txid (address cfg) amount attachment),
             SignNotification txid timestamp (address cfg) from_addr amount None,
             CallWebhook msg nsig], None)
       \<and> length (filter is_webhook
            (fst (on_transfer_utx H cfg txid sig pubkey asset_id timestamp amount fee recipient attachment))) = 1"
  using assms by (simp add: on_transfer_utx_def Let_def)

theorem undecodable_attachment_still_notifies_witness:
  "b58encode demo_helpers [1, 2, 3] = address demo_cfg
   \<and> address_from_public_key demo_helpers [4] = Inr ''3SenderAddress''
   \<and> extract_invoice_id demo_helpers [] = Inr None
   \<and> create_signed_payment_notification demo_helpers ''t1'' 1000 (address demo_cfg) ''3SenderAddress'' 500000 None
       = Inr ([6], [7, 6])
   \<and> on_transfer_utx demo_helpers demo_cfg ''t1'' [9] [4] None 1000 500000 1 [1, 2, 3] []
       = ([Log INFO (transfer_line ''t1'' ''3MerchantAddress'' 500000 []),
           SignNotification ''t1'' 1000 ''3MerchantAddress'' ''3SenderAddress'' 500000 None,
           CallWebhook [6] [7, 6]], None)
   \<and> length (filter is_webhook
        (fst (on_transfer_utx demo_helpers demo_cfg ''t1'' [9] [4] None 1000 500000 1 [1, 2, 3] []))) = 1"
proof -
  have h1: "b58encode demo_helpers [1, 2, 3] = address demo_cfg"
    by (simp add: demo_helpers_def demo_cfg_def)
  have h2: "address_from_public_key demo_helpers [4] = Inr ''3SenderAddress''"
    by (simp add: demo_helpers_def)
  have h3: "extract_invoice_id demo_helpers [] = Inr None"
    by (simp add: demo_helpers_def decode_def)
  have h4: "create_signed_payment_notification demo_helpers ''t1'' 1000 (address demo_cfg) ''3SenderAddress'' 500000 None
       = Inr ([6], [7, 6])"
    by (simp add: demo_helpers_def demo_signer_def sign_notification_def canonical_message_def Let_def)
  have a: "address demo_cfg = ''3MerchantAddress''" by (simp add: demo_cfg_def)
  show ?thesis
    using h1 h2 h3 h4 undecodable_attachment_still_notifies [OF h1 h2 h3 h4, of "[9]" None 1]
    by (simp add: a)
qed

text \<open>
  Claim C10. For every transfer to the merchant, the signature of the transaction that the
  feed passed in is discarded: the webhook call carries the message and the signature that
  the signer returned, and the whole run of the callback is the same whatever transaction
  signature came in.
\<close>

theorem tx_signature_discarded:
  assumes "b58encode H recipient = address cfg"
    and "address_from_public_key H pubkey = Inr from_addr"
    and "extract_invoice_id H attachment = Inr invoice_id"
    and "create_signed_payment_notification H txid timestamp (address cfg) from_addr amount invoice_id = Inr (msg, nsig)"
  shows "filter is_webhook
           (fst (on_transfer_utx H cfg txid sig pubkey asset_id timestamp amount fee recipient attachment))
         = [CallWebhook msg nsig]
       \<and> on_transfer_utx H cfg txid sig' pubkey asset_id timestamp amount fee recipient attachment
         = on_transfer_utx H cfg txid sig pubkey asset_id timestamp amount fee recipient attachment"
  using assms by (simp add: on_transfer_utx_def Let_def)

theorem tx_signature_discarded_witness:
  "b58encode demo_helpers [1, 2, 3] = address demo_cfg
   \<and> address_from_public_key demo_helpers [4] = Inr ''3SenderAddress''
   \<and> extract_invoice_id demo_helpers [73, 2, 65, 66] = Inr (Some ''AB'')
   \<and> create_signed_payment_notification demo_helpers ''t1'' 1000 (address demo_cfg) ''3SenderAddress'' 500000 (Some ''AB'')
       = Inr ([6], [7, 6])
   \<and> filter is_webhook
        (fst (on_transfer_utx demo_helpers demo_cfg ''t1'' [9] [4] None 1000 500000 1 [1, 2, 3] [73, 2, 65, 66]))
       = [CallWebhook [6] [7, 6]]
   \<and> on_transfer_utx demo_helpers demo_cfg ''t1'' [7, 6] [4] None 1000 500000 1 [1, 2, 3] [73, 2, 65, 66]
       = on_transfer_utx demo_helpers demo_cfg ''t1'' [9] [4] None 1000 500000 1 [1, 2, 3] [73, 2, 65, 66]"
proof -
  have h1: "b58encode demo_helpers [1, 2, 3] = address demo_cfg"
    by (simp add: demo_helpers_def demo_cfg_def)
  have h2: "address_from_public_key demo_helpers [4] = Inr ''3SenderAddress''"
    by (simp add: demo_helpers_def)
  have h3: "extract_invoice_id demo_helpers [73, 2, 65, 66] = Inr (Some ''AB'')"
    by code_simp
  have h4: "create_signed_payment_notification demo_helpers ''t1'' 1000 (address demo_cfg) ''3SenderAddress'' 500000 (Some ''AB'')
       = Inr ([6], [7, 6])"
    by (simp add: demo_helpers_def demo_signer_def sign_notification_def canonical_message_def Let_def)
  show ?thesis
    using h1 h2 h3 h4 tx_signature_discarded [OF h1 h2 h3 h4, of "[9]" None 1 "[7, 6]"]
    by simp
qed

subsection \<open>The codec and the signer\<close>

text \<open>
  Claim C3. Decoding is total: for every byte string, whatever the format does with it,
  \<open>decode\<close> returns either a present invoice id or the absent value and never an
  exception; for the tagged format the empty byte string decodes to absent.
\<close>

theorem decode_total:
  "(decode read_format attachment = Inr None \<or> (\<exists>invoice_id. decode read_format attachment = Inr (Some invoice_id)))
   \<and> decode (tagged_field tag) [] = Inr None"
  by (simp add: decode_def split: sum.splits)

text \<open>
  Claim C4. Signing is deterministic: two invocations on the same notification fields, with
  whatever the random source would deliver at each, return the same canonical message and
  the same signature, which is the signature of that message under the private key; and
  the callback run with the signer at either invocation is the same run.
\<close>

theorem sign_deterministic:
  "sign_notification S entropy txid timestamp rcpt from_addr amount invoice_id
     = sign_notification S entropy' txid timestamp rcpt from_addr amount invoice_id
   \<and> sign_notification S entropy txid timestamp rcpt from_addr amount invoice_id
     = Inr (canonical_message S txid timestamp rcpt from_addr amount invoice_id,
            sign_message S (private_key S) (canonical_message S txid timestamp rcpt from_addr amount invoice_id))
   \<and> on_transfer_utx (H\<lparr>create_signed_payment_notification := sign_notification S entropy\<rparr>) cfg
        txid sig pubkey asset_id timestamp amount fee recipient attachment
     = on_transfer_utx (H\<lparr>create_signed_payment_notification := sign_notification S entropy'\<rparr>) cfg
        txid sig pubkey asset_id timestamp amount fee recipient attachment"
  by (simp add: sign_notification_def on_transfer_utx_def Let_def split: sum.splits)

subsection \<open>The supervisor\<close>

text \<open>
  Claim C2. If at a poll at which the body runs the group holds fewer than three greenlets,
  the supervisor logs the error and sends the death alert, exactly one in the whole run,
  leaves the loop without reading any further poll (the run is the same whatever polls
  follow), and then stops both workers: \<^verbatim>\<open>wutx.stop()\<close>, \<^verbatim>\<open>zaprpc.stop()\<close>.
\<close>

theorem worker_death_alert_then_shutdown:
  assumes "main_loop initial pre = (tr, Polling st)"
    and "\<not> sigint_at_test p"
    and "length (group p) < 3"
  shows "main (pre @ p # post)
         = (startup @ tr @ Sleep 1 # fst (deliver (sigint_asleep p) st)
              @ [Log ERROR dead_msg, EmailDeath dead_msg]
              @ [Log INFO [Lit ''stopping greenlets''], Stop WavesUTX, Stop ZapRPC], Broke)
       \<and> length (filter is_email_death (fst (main (pre @ p # post)))) = 1"
proof -
  have k: "keep_running st" using polling_flag[OF assms(1)] .
  have m: "main (pre @ p # post)
         = (startup @ tr @ Sleep 1 # fst (deliver (sigint_asleep p) st)
              @ [Log ERROR dead_msg, EmailDeath dead_msg]
              @ [Log INFO [Lit ''stopping greenlets''], Stop WavesUTX, Stop ZapRPC], Broke)"
    by (simp add: main_after_polling[OF assms(1)] main_loop_death[OF k assms(2,3)] shutdown_def del: main_loop.simps)
  have q: "filter is_email_death (fst (deliver (sigint_asleep p) st)) = []"
    using deliver_quiet[of "sigint_asleep p" st] by (cases "deliver (sigint_asleep p) st") simp
  have "length (filter is_email_death (fst (main (pre @ p # post)))) = 1"
    by (simp add: m startup_quiet polling_no_death[OF assms(1)] q)
  with m show ?thesis by blast
qed

theorem worker_death_alert_then_shutdown_witness:
  "main_loop initial [poll_started]
     = ([Sleep 1, Log INFO started_msg, EmailAlive started_msg], Polling \<lparr>keep_running = True, sent_start_email = True\<rparr>)
   \<and> \<not> sigint_at_test poll_one_dead
   \<and> length (group poll_one_dead) < 3
   \<and> main ([poll_started] @ poll_one_dead # [poll_started])
       = (startup @ [Sleep 1, Log INFO started_msg, EmailAlive started_msg]
            @ [Sleep 1, Log ERROR dead_msg, EmailDeath dead_msg,
               Log INFO [Lit ''stopping greenlets''], Stop WavesUTX, Stop ZapRPC], Broke)
   \<and> length (filter is_email_death (fst (main ([poll_started] @ poll_one_dead # [poll_started])))) = 1"
proof -
  have h1: "main_loop initial [poll_started]
     = ([Sleep 1, Log INFO started_msg, EmailAlive started_msg], Polling \<lparr>keep_running = True, sent_start_email = True\<rparr>)"
    by (simp add: run_defs)
  have h2: "\<not> sigint_at_test poll_one_dead" by (simp add: poll_one_dead_def)
  have h3: "length (group poll_one_dead) < 3" by (simp add: poll_one_dead_def)
  have d: "fst (deliver (sigint_asleep poll_one_dead) \<lparr>keep_running = True, sent_start_email = True\<rparr>) = []"
    by (simp add: deliver_def poll_one_dead_def)
  show ?thesis
    using worker_death_alert_then_shutdown [OF h1 h2 h3, of "[poll_started]"]
    by (simp add: d h1 h2 h3 startup_def del: main_loop.simps)
qed

text \<open>
  Claim C9. The death check runs before the start check: if the group holds fewer than
  three greenlets at a poll at which the start alert has not been sent yet, then no start
  alert is sent in the whole run, even when every greenlet left in the group is started;
  the run sends the death alert and ends by the \<^verbatim>\<open>break\<close>.
\<close>

theorem death_check_before_start_check:
  assumes "main_loop initial pre = (tr, Polling st)"
    and "\<not> sent_start_email st"
    and "\<not> sigint_at_test p"
    and "length (group p) < 3"
  shows "filter is_email_alive (fst (main (pre @ p # post))) = []
       \<and> filter is_email_death (fst (main (pre @ p # post))) = [EmailDeath dead_msg]
       \<and> snd (main (pre @ p # post)) = Broke"
proof -
  have k: "keep_running st" using polling_flag[OF assms(1)] .
  have m: "main (pre @ p # post)
         = (startup @ tr @ Sleep 1 # fst (deliver (sigint_asleep p) st)
              @ [Log ERROR dead_msg, EmailDeath dead_msg] @ shutdown, Broke)"
    by (simp add: main_after_polling[OF assms(1)] main_loop_death[OF k assms(3,4)] del: main_loop.simps)
  have q: "filter is_email_death (fst (deliver (sigint_asleep p) st)) = []
         \<and> filter is_email_alive (fst (deliver (sigint_asleep p) st)) = []"
    using deliver_quiet[of "sigint_asleep p" st] by (cases "deliver (sigint_asleep p) st") simp
  show ?thesis
    by (simp add: m startup_quiet shutdown_quiet q polling_no_death[OF assms(1)]
        polling_unsent[OF assms(1,2)])
qed

theorem death_check_before_start_check_witness:
  "main_loop initial [poll_starting] = ([Sleep 1], Polling \<lparr>keep_running = True, sent_start_email = False\<rparr>)
   \<and> \<not> sent_start_email \<lparr>keep_running = True, sent_start_email = False\<rparr>
   \<and> \<not> sigint_at_test poll_one_dead
   \<and> length (group poll_one_dead) < 3
   \<and> send_start_email (group poll_one_dead)
   \<and> filter is_email_alive (fst (main ([poll_starting] @ poll_one_dead # [poll_started]))) = []
   \<and> filter is_email_death (fst (main ([poll_starting] @ poll_one_dead # [poll_started]))) = [EmailDeath dead_msg]
   \<and> snd (main ([poll_starting] @ poll_one_dead # [poll_started])) = Broke"
proof -
  have h1: "main_loop initial [poll_starting] = ([Sleep 1], Polling \<lparr>keep_running = True, sent_start_email = False\<rparr>)"
    by (simp add: run_defs)
  have h2: "\<not> sent_start_email \<lparr>keep_running = True, sent_start_email = False\<rparr>" by simp
  have h3: "\<not> sigint_at_test poll_one_dead" by (simp add: poll_one_dead_def)
  have h4: "length (group poll_one_dead) < 3" by (simp add: poll_one_dead_def)
  have h5: "send_start_email (group poll_one_dead)" by (simp add: poll_one_dead_def send_start_email_def)
  show ?thesis
    using death_check_before_start_check [OF h1 h2 h3 h4, of "[poll_started]"]
    by (simp add: h1 h3 h4 h5 del: main_loop.simps)
qed

text \<open>
  Claim C5. The start alert is sent at most once in a run, whatever the polls; and when
  every poll of a non-empty run finds all workers started, it is sent exactly once, however
  many such polls follow one another.
\<close>

theorem healthy_alert_once:
  "length (filter is_email_alive (fst (main ps))) \<le> 1
   \<and> (ps \<noteq> [] \<and> list_all all_running ps \<longrightarrow> length (filter is_email_alive (fst (main ps))) = 1)"
proof -
  obtain tr e where ml: "main_loop initial ps = (tr, e)" by (cases "main_loop initial ps")
  have f: "filter is_email_alive (fst (main ps)) = filter is_email_alive tr"
    by (cases e) (simp_all add: main_def ml startup_quiet shutdown_quiet)
  have "length (filter is_email_alive tr) \<le> 1"
    using alive_at_most_once[of initial ps] by (simp add: ml initial_flags)
  moreover have "ps \<noteq> [] \<and> list_all all_running ps \<longrightarrow> length (filter is_email_alive tr) = 1"
    using all_running_alive[of initial ps] by (simp add: ml initial_flags)
  ultimately show ?thesis by (simp add: f)
qed

theorem healthy_alert_once_witness:
  "[poll_started, poll_started, poll_started] \<noteq> []
   \<and> list_all all_running [poll_started, poll_started, poll_started]
   \<and> length (filter is_email_alive (fst (main [poll_started, poll_started, poll_started]))) = 1"
proof -
  have h: "list_all all_running [poll_started, poll_started, poll_started]"
    by (simp add: all_running_def poll_started_def)
  show ?thesis
    using h healthy_alert_once [of "[poll_started, poll_started, poll_started]"]
    by simp
qed

text \<open>
  Claim C6 says that the handler flips the run flag and does nothing else, and that the main
  loop then observes the flag on its next poll and exits. Both parts fail as stated. The
  handler also writes a log line at level \<^verbatim>\<open>WARNING\<close>. And when the signal arrives during
  the sleep of an iteration whose death check finds fewer than three greenlets, the loop
  never tests the flag again: it sends the death alert and leaves by \<^verbatim>\<open>break\<close>, as in the
  run below.
\<close>

theorem sigint_handler_logs:
  "sigint_handler initial \<noteq> ([], initial\<lparr>keep_running := False\<rparr>)
   \<and> fst (sigint_handler initial) = [Log WARNING [Lit ''SIGINT caught, attempting to exit gracefully'']]
   \<and> main [poll_started, poll_interrupted_dead, poll_started]
       = ([Log INFO [Lit ''starting greenlets''], Start ZapRPC, Start WavesUTX, Log INFO [Lit ''main loop''],
           Sleep 1, Log INFO started_msg, EmailAlive started_msg,
           Sleep 1, Log WARNING [Lit ''SIGINT caught, attempting to exit gracefully''],
           Log ERROR dead_msg, EmailDeath dead_msg,
           Log INFO [Lit ''stopping greenlets''], Stop WavesUTX, Stop ZapRPC], Broke)"
  by (simp add: main_def run_defs poll_interrupted_dead_def startup_def shutdown_def)

text \<open>
  Claim C6, amended. On the interrupt signal the handler writes one warning line and clears
  the run flag, and nothing else. When the signal arrives at a poll, the main loop sleeps
  at most once more; it observes the flag at its next test of the loop condition and exits,
  except when the signal arrived during the sleep and the death check of that iteration
  finds fewer than three greenlets: then the loop sends the death alert and exits by
  \<^verbatim>\<open>break\<close>. Either way the main block then stops both workers, the watcher and the RPC
  service, before it ends, and no death alert is sent outside that exception.
\<close>

theorem sigint_logs_and_stops:
  assumes "main_loop initial pre = (tr, Polling st)"
    and "sigint_at_test p \<or> sigint_asleep p"
  shows "sigint_handler s = ([Log WARNING [Lit ''SIGINT caught, attempting to exit gracefully'']], s\<lparr>keep_running := False\<rparr>)
       \<and> fst (main (pre @ p # post))
           = startup @ tr @ fst (main_loop st (p # post))
               @ [Log INFO [Lit ''stopping greenlets''], Stop WavesUTX, Stop ZapRPC]
       \<and> length (filter is_sleep (fst (main_loop st (p # post)))) \<le> 1
       \<and> snd (main (pre @ p # post))
           = (if \<not> sigint_at_test p \<and> length (group p) < 3 then Broke else Stopped)
       \<and> filter is_email_death (fst (main_loop st (p # post)))
           = (if \<not> sigint_at_test p \<and> length (group p) < 3 then [EmailDeath dead_msg] else [])"
proof -
  have k: "keep_running st" using polling_flag[OF assms(1)] .
  note s = main_loop_sigint[OF k assms(2), of post]
  note t = main_loop_sigint_ending[OF k assms(2), of post]
  obtain tr2 e where ml: "main_loop st (p # post) = (tr2, e)" by (cases "main_loop st (p # post)")
  from s ml have e: "e = Stopped \<or> e = Broke" by simp
  have m: "main (pre @ p # post) = (startup @ tr @ tr2 @ shutdown, e)"
    using e by (auto simp: main_after_polling[OF assms(1)] ml simp del: main_loop.simps)
  have h: "sigint_handler s = ([Log WARNING [Lit ''SIGINT caught, attempting to exit gracefully'']], s\<lparr>keep_running := False\<rparr>)"
    by (simp add: sigint_handler_def)
  have c2: "fst (main (pre @ p # post))
           = startup @ tr @ fst (main_loop st (p # post))
               @ [Log INFO [Lit ''stopping greenlets''], Stop WavesUTX, Stop ZapRPC]"
    by (simp add: m ml shutdown_def del: main_loop.simps)
  have c3: "length (filter is_sleep (fst (main_loop st (p # post)))) \<le> 1" using s by blast
  have c4: "snd (main (pre @ p # post))
           = (if \<not> sigint_at_test p \<and> length (group p) < 3 then Broke else Stopped)"
    using t by (simp add: m ml del: main_loop.simps)
  have c5: "filter is_email_death (fst (main_loop st (p # post)))
           = (if \<not> sigint_at_test p \<and> length (group p) < 3 then [EmailDeath dead_msg] else [])"
    using t by blast
  from h c2 c3 c4 c5 show ?thesis by blast
qed

theorem sigint_logs_and_stops_witness:
  "main_loop initial [poll_started]
     = ([Sleep 1, Log INFO started_msg, EmailAlive started_msg], Polling \<lparr>keep_running = True, sent_start_email = True\<rparr>)
   \<and> sigint_asleep poll_interrupted
   \<and> fst (main ([poll_started] @ poll_interrupted # [poll_started]))
       = startup @ [Sleep 1, Log INFO started_msg, EmailAlive started_msg]
           @ [Sleep 1, Log WARNING [Lit ''SIGINT caught, attempting to exit gracefully'']]
           @ [Log INFO [Lit ''stopping greenlets''], Stop WavesUTX, Stop ZapRPC]
   \<and> snd (main ([poll_started] @ poll_interrupted # [poll_started])) = Stopped
   \<and> filter is_email_death (fst (main ([poll_started] @ poll_interrupted # [poll_started]))) = []"
proof -
  have h1: "main_loop initial [poll_started]
     = ([Sleep 1, Log INFO started_msg, EmailAlive started_msg], Polling \<lparr>keep_running = True, sent_start_email = True\<rparr>)"
    by (simp add: run_defs)
  have h2: "sigint_at_test poll_interrupted \<or> sigint_asleep poll_interrupted"
    by (simp add: poll_interrupted_def)
  have h3: "sigint_asleep poll_interrupted" by (simp add: poll_interrupted_def)
  have g: "\<not> length (group poll_interrupted) < 3" by (simp add: poll_interrupted_def)
  have r: "main_loop \<lparr>keep_running = True, sent_start_email = True\<rparr> (poll_interrupted # [poll_started])
           = ([Sleep 1, Log WARNING [Lit ''SIGINT caught, attempting to exit gracefully'']], Stopped)"
    by (simp add: run_defs)
  have d: "filter is_email_death (fst (main ([poll_started] @ poll_interrupted # [poll_started]))) = []"
    by (simp add: main_def run_defs startup_def shutdown_def started_msg_def)
  show ?thesis
    using d sigint_logs_and_stops [OF h1 h2, of "\<lparr>keep_running = True, sent_start_email = True\<rparr>" "[poll_started]"]
    by (simp add: r h1 h3 g del: main_loop.simps)
qed

end
